theory Spec2Isabelle
  imports Complex_Main
begin

section \<open>Input records (src/inputs/base\_input.py, class InputData)\<close>

text \<open>
  Instants (Python \<open>datetime\<close> values) are integers counting microseconds, the resolution
  of \<open>datetime\<close>. Every call of \<open>datetime.now()\<close> in the source becomes an explicit
  argument \<open>now\<close>. The payload \<open>content\<close> is opaque to the framework and is kept as a
  string. The derived field \<open>id\<close> is never read by the framework and is left out.
\<close>

type_synonym datetime = int

record InputData =
  source :: string
  data_type :: string
  content :: string
  timestamp :: datetime
  priority :: int
  expires_at :: "datetime option"

text \<open>\<open>InputData.__init__\<close>: \<open>timestamp or datetime.now()\<close>, \<open>priority\<close> defaulting to 5.\<close>

definition InputData_init ::
  "string \<Rightarrow> string \<Rightarrow> string \<Rightarrow> datetime option \<Rightarrow> int option \<Rightarrow> datetime option
     \<Rightarrow> datetime \<Rightarrow> InputData" where
  "InputData_init src dt c ts prio expires now =
     \<lparr> source = src, data_type = dt, content = c,
       timestamp = (case ts of None \<Rightarrow> now | Some t \<Rightarrow> t),
       priority = (case prio of None \<Rightarrow> 5 | Some p \<Rightarrow> p),
       expires_at = expires \<rparr>"

text \<open>\<open>InputData.is_expired\<close>: never when \<open>expires_at\<close> is \<open>None\<close>, else \<open>now > expires_at\<close>.\<close>

definition is_expired :: "InputData \<Rightarrow> datetime \<Rightarrow> bool" where
  "is_expired d now = (case expires_at d of None \<Rightarrow> False | Some e \<Rightarrow> now > e)"

section \<open>Exceptions, listeners and observable effects\<close>

text \<open>
  Python exceptions are split into the two classes that \<open>except Exception\<close> tells apart:
  instances of \<open>Exception\<close>, and instances of \<open>BaseException\<close> outside \<open>Exception\<close>
  (\<open>KeyboardInterrupt\<close>, \<open>SystemExit\<close>, \<open>asyncio.CancelledError\<close>). Both carry their
  message.
\<close>

datatype py_exception = PyException string | PyBaseException string

datatype call_result = Returned | Raised py_exception

text \<open>
  A registered listener: its identity, whether \<open>asyncio.iscoroutinefunction\<close> holds of it,
  and what evaluating the call expression \<open>callback(data)\<close> does. For a plain function
  the call runs the function. For a coroutine function the call only builds the coroutine
  object; \<open>body\<close> is what that coroutine does when the event loop runs it inside the
  task that \<open>asyncio.create_task\<close> made for it.
\<close>

record listener =
  cb_id :: nat
  is_coroutine :: bool
  call :: "InputData \<Rightarrow> call_result"
  body :: "InputData \<Rightarrow> call_result"

text \<open>
  The tasks the module creates: its update loop, and a listener's coroutine, which carries
  the listener's identity, the record, and what its body does when run.
\<close>

datatype task = UpdateLoopTask | ListenerTask nat InputData call_result



text \<open>What a method does besides changing the object's attributes, in program order.\<close>

datatype effect =
    LogInfo string
  | LogError string
  | Called nat InputData
  | CreateTask task
  | Cleanup
  | Sleep int

section \<open>The input module (class BaseInput)\<close>

record BaseInput =
  name :: string
  enabled :: bool
  update_interval :: int
  running :: bool
  last_update :: "datetime option"
  error_count :: int
  max_errors :: int
  current_data :: "InputData list"
  data_listeners :: "listener list"

record input_config =
  cfg_enabled :: "bool option"
  cfg_update_interval :: "int option"
  cfg_max_errors :: "int option"

text \<open>\<open>BaseInput.__init__\<close> with the defaults of \<open>config.get\<close>.\<close>

definition BaseInput_init :: "string \<Rightarrow> input_config \<Rightarrow> BaseInput" where
  "BaseInput_init nm cfg =
     \<lparr> name = nm,
       enabled = (case cfg_enabled cfg of None \<Rightarrow> True | Some b \<Rightarrow> b),
       update_interval = (case cfg_update_interval cfg of None \<Rightarrow> 60 | Some i \<Rightarrow> i),
       running = False,
       last_update = None,
       error_count = 0,
       max_errors = (case cfg_max_errors cfg of None \<Rightarrow> 5 | Some m \<Rightarrow> m),
       current_data = [],
       data_listeners = [] \<rparr>"

text \<open>\<open>BaseInput._clean_expired_data\<close>.\<close>

definition clean_expired_data :: "BaseInput \<Rightarrow> datetime \<Rightarrow> BaseInput" where
  "clean_expired_data s now =
     s\<lparr>current_data := [d \<leftarrow> current_data s. \<not> is_expired d now]\<rparr>"

text \<open>
  \<open>BaseInput._notify_listeners\<close>: the \<open>for\<close> loop with its \<open>try\<close>/\<open>except Exception\<close>.
  The result is the effects in order and the exception that leaves the method, if any.
\<close>

definition listener_error_message :: "string \<Rightarrow> string \<Rightarrow> string" where
  "listener_error_message nm msg = ''Error notifying listener in '' @ nm @ '': '' @ msg"

fun notify_loop :: "string \<Rightarrow> InputData \<Rightarrow> listener list \<Rightarrow> effect list \<times> py_exception option" where
  "notify_loop nm d [] = ([], None)"
| "notify_loop nm d (cb # cbs) =
     (case call cb d of
        Returned \<Rightarrow>
          (let (fx, r) = notify_loop nm d cbs
           in (Called (cb_id cb) d
                 # (if is_coroutine cb then [CreateTask (ListenerTask (cb_id cb) d (body cb d))]
                    else []) @ fx, r))
      | Raised (PyException msg) \<Rightarrow>
          (let (fx, r) = notify_loop nm d cbs
           in (Called (cb_id cb) d
                 # LogError (listener_error_message nm msg) # fx, r))
      | Raised (PyBaseException msg) \<Rightarrow>
          ([Called (cb_id cb) d], Some (PyBaseException msg)))"

definition notify_listeners :: "BaseInput \<Rightarrow> InputData \<Rightarrow> effect list \<times> py_exception option" where
  "notify_listeners s d = notify_loop (name s) d (data_listeners s)"

text \<open>
  \<open>BaseInput.add_data\<close>: drop the resident records of the same source and type, append,
  notify. The attribute is assigned before the listeners run, so the new state stands also
  when a listener's exception leaves the method.
\<close>

definition add_data :: "BaseInput \<Rightarrow> InputData \<Rightarrow> BaseInput \<times> effect list \<times> py_exception option" where
  "add_data s d =
     (let s' = s\<lparr>current_data :=
                  [x \<leftarrow> current_data s. \<not> (source x = source d \<and> data_type x = data_type d)] @ [d]\<rparr>
      in (s', notify_listeners s' d))"

text \<open>
  \<open>BaseInput.get_current_data\<close>. The test \<open>if data_type:\<close> is Python truthiness: both
  \<open>None\<close> and the empty string select the unfiltered copy.
\<close>

definition get_current_data :: "BaseInput \<Rightarrow> string option \<Rightarrow> InputData list" where
  "get_current_data s dt =
     (case dt of
        None \<Rightarrow> current_data s
      | Some k \<Rightarrow> if k = [] then current_data s
                  else [d \<leftarrow> current_data s. data_type d = k])"

text \<open>
  Python's \<open>max(xs, key=...)\<close> on a non-empty list: the running maximum is replaced only by
  a strictly greater key.
\<close>

fun max_by_timestamp :: "InputData \<Rightarrow> InputData list \<Rightarrow> InputData" where
  "max_by_timestamp best [] = best"
| "max_by_timestamp best (x # xs) =
     (if timestamp x > timestamp best then max_by_timestamp x xs else max_by_timestamp best xs)"

text \<open>\<open>BaseInput.get_latest_data\<close>.\<close>

definition get_latest_data :: "BaseInput \<Rightarrow> string \<Rightarrow> InputData option" where
  "get_latest_data s k =
     (case get_current_data s (Some k) of
        [] \<Rightarrow> None
      | x # xs \<Rightarrow> Some (max_by_timestamp x xs))"


text \<open>
  \<open>BaseInput.start\<close>. \<open>asyncio.create_task\<close> schedules the update loop; it does not run
  it.
\<close>

definition start :: "BaseInput \<Rightarrow> BaseInput \<times> effect list" where
  "start s =
     (if \<not> enabled s then (s, [LogInfo (''Input module '' @ name s @ '' is disabled'')])
      else (s\<lparr>running := True\<rparr>,
            [LogInfo (''Starting input module: '' @ name s), CreateTask UpdateLoopTask]))"

text \<open>\<open>BaseInput.stop\<close>; \<open>Cleanup\<close> records one run of the \<open>_cleanup\<close> hook.\<close>

definition stop :: "BaseInput \<Rightarrow> BaseInput \<times> effect list" where
  "stop s = (s\<lparr>running := False\<rparr>, [LogInfo (''Stopping input module: '' @ name s), Cleanup])"


subsection \<open>The update loop\<close>








section \<open>The display controller (src/display/display\_controller.py)\<close>

text \<open>
  The arguments of one \<open>show_text\<close> call that reach \<open>_render_text\<close>. Durations and the
  clock are integers (milliseconds).
\<close>

record render_request =
  r_text :: string
  r_font_size :: string
  r_position :: "(int \<times> int) option"
  r_center :: bool

text \<open>
  The life of a task running \<open>_show_text_with_duration\<close>: created and not yet run;
  suspended in \<open>asyncio.sleep\<close> until a wake-up time; finished; cancelled. A cancelled
  task is never resumed in its body past the \<open>await\<close> it was suspended in, since the
  coroutine does not catch the cancellation.
\<close>

datatype task_state = Created | Sleeping int | Finished | Cancelled

record display_task =
  request :: render_request
  duration :: int
  state :: task_state

text \<open>The arguments of one \<open>show_progress_bar\<close> call that it paints.\<close>

record bar_request =
  b_progress :: real
  b_label :: string

text \<open>What the panel shows: a text, as \<open>_render_text\<close> painted it, or a progress bar.\<close>

datatype shown = TextShown render_request | BarShown bar_request

text \<open>
  A caller of \<open>show_progress_bar\<close> with a duration is suspended in the method's own
  \<open>asyncio.sleep\<close> until a wake-up time, and then goes on to \<open>clear\<close>. The controller
  keeps no handle on it.
\<close>

datatype caller_state = Suspended int | Resumed

text \<open>
  The attributes \<open>width\<close>, \<open>height\<close>, \<open>brightness\<close> and \<open>current_task\<close> of the
  controller, together with its surroundings: the tasks it has created (a task handle is
  an index into \<open>tasks\<close>), the callers suspended inside \<open>show_progress_bar\<close>, what
  the panel shows (\<open>None\<close> is blank), and the clock.
\<close>

record DisplayController =
  width :: int
  height :: int
  brightness :: int
  current_task :: "nat option"
  tasks :: "display_task list"
  callers :: "caller_state list"
  panel :: "shown option"
  clock :: int

definition DisplayController_init :: "int option \<Rightarrow> DisplayController" where
  "DisplayController_init cfg_brightness =
     \<lparr> width = 128, height = 64,
       brightness = (case cfg_brightness of None \<Rightarrow> 255 | Some b \<Rightarrow> b),
       current_task = None, tasks = [], callers = [], panel = None, clock = 0 \<rparr>"

definition task_done :: "display_task \<Rightarrow> bool" where
  "task_done t = (state t = Finished \<or> state t = Cancelled)"

text \<open>\<open>if self.current_task and not self.current_task.done(): self.current_task.cancel()\<close>\<close>

definition cancel_current :: "DisplayController \<Rightarrow> DisplayController" where
  "cancel_current s =
     (case current_task s of
        None \<Rightarrow> s
      | Some h \<Rightarrow>
          if h < length (tasks s) \<and> \<not> task_done (tasks s ! h)
          then s\<lparr>tasks := (tasks s)[h := (tasks s ! h)\<lparr>state := Cancelled\<rparr>]\<rparr>
          else s)"

text \<open>\<open>_render_text\<close> and \<open>clear\<close>, as what the panel shows afterwards.\<close>

definition render_text :: "DisplayController \<Rightarrow> render_request \<Rightarrow> DisplayController" where
  "render_text s req = s\<lparr>panel := Some (TextShown req)\<rparr>"

definition clear :: "DisplayController \<Rightarrow> DisplayController" where
  "clear s = s\<lparr>panel := None\<rparr>"

text \<open>
  \<open>DisplayController.show_text\<close>. \<open>if duration:\<close> is truthiness: \<open>None\<close> and 0 both take
  the immediate branch.
\<close>

definition show_text :: "DisplayController \<Rightarrow> render_request \<Rightarrow> int option \<Rightarrow> DisplayController" where
  "show_text s req dur =
     (let s1 = cancel_current s
      in (case dur of
            None \<Rightarrow> render_text s1 req
          | Some d \<Rightarrow>
              if d = 0 then render_text s1 req
              else s1\<lparr>tasks := tasks s1 @ [\<lparr>request = req, duration = d, state = Created\<rparr>],
                      current_task := Some (length (tasks s1))\<rparr>))"

text \<open>
  The event loop running task \<open>h\<close> as far as it goes (\<open>_show_text_with_duration\<close>): a
  created task renders and suspends in \<open>asyncio.sleep(duration)\<close>; a sleeping task whose
  time has come clears the panel and finishes; any other task does nothing.
\<close>

definition resume :: "DisplayController \<Rightarrow> nat \<Rightarrow> DisplayController" where
  "resume s h =
     (if h < length (tasks s) then
        (case state (tasks s ! h) of
           Created \<Rightarrow>
             (render_text s (request (tasks s ! h)))
               \<lparr>tasks := (tasks s)[h := (tasks s ! h)\<lparr>state := Sleeping (clock s + duration (tasks s ! h))\<rparr>]\<rparr>
         | Sleeping w \<Rightarrow>
             if clock s \<ge> w
             then (clear s)\<lparr>tasks := (tasks s)[h := (tasks s ! h)\<lparr>state := Finished\<rparr>]\<rparr>
             else s
         | Finished \<Rightarrow> s
         | Cancelled \<Rightarrow> s)
      else s)"

text \<open>
  \<open>DisplayController.show_progress_bar\<close>: it paints the bar, without looking at
  \<open>current_task\<close>; with a duration (\<open>if duration:\<close>) the caller then sleeps inside the
  method.
\<close>

definition show_progress_bar ::
  "DisplayController \<Rightarrow> bar_request \<Rightarrow> int option \<Rightarrow> DisplayController" where
  "show_progress_bar s bar dur =
     (let s1 = s\<lparr>panel := Some (BarShown bar)\<rparr>
      in (case dur of
            None \<Rightarrow> s1
          | Some d \<Rightarrow>
              if d = 0 then s1
              else s1\<lparr>callers := callers s1 @ [Suspended (clock s1 + d)]\<rparr>))"

text \<open>
  The event loop resuming caller \<open>k\<close> of \<open>show_progress_bar\<close>: once its sleep is over it
  runs \<open>await self.clear()\<close> and returns.
\<close>

definition resume_caller :: "DisplayController \<Rightarrow> nat \<Rightarrow> DisplayController" where
  "resume_caller s k =
     (if k < length (callers s) then
        (case callers s ! k of
           Suspended w \<Rightarrow>
             if clock s \<ge> w then (clear s)\<lparr>callers := (callers s)[k := Resumed]\<rparr> else s
         | Resumed \<Rightarrow> s)
      else s)"

text \<open>\<open>DisplayController.shutdown\<close>, as far as the panel and the tasks go.\<close>

definition shutdown :: "DisplayController \<Rightarrow> DisplayController" where
  "shutdown s = clear (cancel_current s)"

text \<open>\<open>DisplayController.set_brightness\<close>.\<close>

definition set_brightness :: "DisplayController \<Rightarrow> int \<Rightarrow> DisplayController" where
  "set_brightness s b = s\<lparr>brightness := max 0 (min 255 b)\<rparr>"

text \<open>
  What can happen to a controller: calls of its methods by the application
  (\<open>show_time\<close>, \<open>show_status\<close> and \<open>show_notification\<close> are calls of \<open>show_text\<close>;
  \<open>initialize\<close> ends in a call of \<open>clear\<close>), and the moves of the surroundings: the
  event loop resumes a task of \<open>show_text\<close> or a caller suspended in
  \<open>show_progress_bar\<close>; time passes.
\<close>

datatype event =
    ShowText render_request "int option"
  | ShowProgressBar bar_request "int option"
  | Clear
  | SetBrightness int
  | Shutdown
  | Resume nat
  | ResumeCaller nat
  | Advance nat

fun step :: "DisplayController \<Rightarrow> event \<Rightarrow> DisplayController" where
  "step s (ShowText req dur) = show_text s req dur"
| "step s (ShowProgressBar bar dur) = show_progress_bar s bar dur"
| "step s Clear = clear s"
| "step s (SetBrightness b) = set_brightness s b"
| "step s Shutdown = shutdown s"
| "step s (Resume h) = resume s h"
| "step s (ResumeCaller k) = resume_caller s k"
| "step s (Advance dt) = s\<lparr>clock := clock s + int dt\<rparr>"

definition run :: "DisplayController \<Rightarrow> event list \<Rightarrow> DisplayController" where
  "run s evs = foldl step s evs"

fun scheduler_event :: "event \<Rightarrow> bool" where
  "scheduler_event (Resume h) = True"
| "scheduler_event (ResumeCaller k) = True"
| "scheduler_event (Advance dt) = True"
| "scheduler_event _ = False"

subsection \<open>Text layout\<close>

text \<open>\<open>text.split('\n')\<close>: always at least one line.\<close>

fun split_lines :: "string \<Rightarrow> string list" where
  "split_lines [] = [[]]"
| "split_lines (c # cs) =
     (if c = CHR 0x0A then [] # split_lines cs
      else (case split_lines cs of
              [] \<Rightarrow> [[c]]
            | l # ls \<Rightarrow> (c # l) # ls))"

text \<open>
  \<open>DisplayController._draw_text\<close>, as the list of \<open>draw.text((x, y), line)\<close> calls it makes.
  The font metrics are external: \<open>textbbox\<close> stands for
  \<open>draw.textbbox((0, 0), line, font=font)\<close>. The line height 15 is the source's literal.
\<close>

definition draw_text ::
  "DisplayController \<Rightarrow> (string \<Rightarrow> int \<times> int \<times> int \<times> int) \<Rightarrow> string \<Rightarrow> (int \<times> int) option \<Rightarrow> bool
     \<Rightarrow> ((int \<times> int) \<times> string) list" where
  "draw_text s textbbox txt position center =
     (let lines = split_lines txt
      in if center \<and> position = None then
           (let total_height = int (length lines) * 15;
                start_y = (height s - total_height) div 2
            in map (\<lambda>(i, line).
                      (let (b0, b1, b2, b3) = textbbox line;
                           text_width = b2 - b0;
                           x = (width s - text_width) div 2;
                           y = start_y + int i * 15
                       in ((x, y), line)))
                   (enumerate 0 lines))
         else
           (let (x, y) = (case position of Some p \<Rightarrow> p | None \<Rightarrow> (0, 0))
            in map (\<lambda>(i, line). ((x, y + int i * 15), line)) (enumerate 0 lines)))"

section \<open>Sequences of operations and sample values\<close>

text \<open>Two records have the same key when \<open>add_data\<close> lets one replace the other.\<close>

definition same_key :: "InputData \<Rightarrow> InputData \<Rightarrow> bool" where
  "same_key x d = (source x = source d \<and> data_type x = data_type d)"

text \<open>The resident records of one source and type.\<close>

definition resident :: "BaseInput \<Rightarrow> string \<Rightarrow> string \<Rightarrow> InputData list" where
  "resident s src k = [x \<leftarrow> current_data s. source x = src \<and> data_type x = k]"

text \<open>A sequence of \<open>add_data\<close> calls, each returning normally or not.\<close>

definition add_all :: "BaseInput \<Rightarrow> InputData list \<Rightarrow> BaseInput" where
  "add_all s ds = foldl (\<lambda>s d. fst (add_data s d)) s ds"

text \<open>
  The two methods that assign \<open>current_data\<close> after construction: the pruning pass and
  \<open>add_data\<close>.
\<close>

datatype cache_op = Clean datetime | Add InputData

fun apply_cache_op :: "BaseInput \<Rightarrow> cache_op \<Rightarrow> BaseInput" where
  "apply_cache_op s (Clean now) = clean_expired_data s now"
| "apply_cache_op s (Add d) = fst (add_data s d)"

fun supersedes :: "cache_op \<Rightarrow> InputData \<Rightarrow> bool" where
  "supersedes (Clean now) d = False"
| "supersedes (Add x) d = same_key x d"

definition ex_input :: BaseInput where
  "ex_input = BaseInput_init ''time_input''
     \<lparr>cfg_enabled = None, cfg_update_interval = None, cfg_max_errors = Some 2\<rparr>"

definition rec_a1 :: InputData where
  "rec_a1 = \<lparr>source = ''a'', data_type = ''time'', content = ''one'',
             timestamp = 10, priority = 5, expires_at = Some 5\<rparr>"

definition rec_a2 :: InputData where
  "rec_a2 = \<lparr>source = ''a'', data_type = ''time'', content = ''two'',
             timestamp = 3, priority = 5, expires_at = None\<rparr>"

definition rec_b1 :: InputData where
  "rec_b1 = \<lparr>source = ''b'', data_type = ''time'', content = ''three'',
             timestamp = 5, priority = 5, expires_at = None\<rparr>"

definition rec_b2 :: InputData where
  "rec_b2 = \<lparr>source = ''b'', data_type = ''time'', content = ''four'',
             timestamp = 10, priority = 5, expires_at = None\<rparr>"

text \<open>Readings of an effect list: the tasks created, the callbacks called, the errors logged,
  and how often the \<open>_cleanup\<close> hook ran.\<close>

fun created_tasks :: "effect list \<Rightarrow> task list" where
  "created_tasks [] = []"
| "created_tasks (CreateTask t # fx) = t # created_tasks fx"
| "created_tasks (e # fx) = created_tasks fx"



definition cleanup_runs :: "effect list \<Rightarrow> nat" where
  "cleanup_runs fx = count_list fx Cleanup"



text \<open>\<open>bbox[2] - bbox[0]\<close> of a line.\<close>

definition measured_width :: "(string \<Rightarrow> int \<times> int \<times> int \<times> int) \<Rightarrow> string \<Rightarrow> int" where
  "measured_width textbbox line = (case textbbox line of (b0, b1, b2, b3) \<Rightarrow> b2 - b0)"

text \<open>The metrics of \<open>MockFont.getbbox\<close> in \<open>_setup_simulation_mode\<close>.\<close>

definition mock_bbox :: "string \<Rightarrow> int \<times> int \<times> int \<times> int" where
  "mock_bbox line = (0, 0, int (length line) * 6, 10)"

definition ex_display :: DisplayController where
  "ex_display = DisplayController_init None"

definition ex_text :: string where
  "ex_text = ''Hi'' @ [CHR 0x0A] @ ''there''"


















text \<open>Every task the controller has created is finished or cancelled.\<close>

definition all_done :: "DisplayController \<Rightarrow> bool" where
  "all_done s = list_all task_done (tasks s)"

text \<open>A task that is neither finished nor cancelled is the one \<open>current_task\<close> refers to.\<close>

definition only_current_live :: "DisplayController \<Rightarrow> bool" where
  "only_current_live s =
     (\<forall>h < length (tasks s). \<not> task_done (tasks s ! h) \<longrightarrow> current_task s = Some h)"

definition req_a :: render_request where
  "req_a = \<lparr>r_text = ''A'', r_font_size = ''medium'', r_position = None, r_center = True\<rparr>"

definition req_b :: render_request where
  "req_b = \<lparr>r_text = ''B'', r_font_size = ''medium'', r_position = None, r_center = True\<rparr>"

definition ex_bar :: bar_request where
  "ex_bar = \<lparr>b_progress = 1 / 2, b_label = ''Loading''\<rparr>"

text \<open>No caller is suspended inside \<open>show_progress_bar\<close>.\<close>

definition no_suspended :: "DisplayController \<Rightarrow> bool" where
  "no_suspended s = list_all (\<lambda>c. c = Resumed) (callers s)"

section \<open>Auxiliary facts about the record cache\<close>

lemma current_data_add_data:
  "current_data (fst (add_data s d)) =
     [x \<leftarrow> current_data s. \<not> (source x = source d \<and> data_type x = data_type d)] @ [d]"
  by (simp add: add_data_def Let_def)

lemma max_by_timestamp_mem: "max_by_timestamp b xs \<in> set (b # xs)"
  by (induction xs arbitrary: b) auto

lemma get_latest_data_mem:
  "get_latest_data s k = Some r \<Longrightarrow> r \<in> set (get_current_data s (Some k))"
  using max_by_timestamp_mem
  by (auto simp: get_latest_data_def split: list.splits)

lemma get_current_data_subset: "set (get_current_data s dt) \<subseteq> set (current_data s)"
  by (auto simp: get_current_data_def split: option.splits)


lemma apply_cache_op_keeps:
  "d \<in> set (current_data s) \<Longrightarrow> expires_at d = None \<Longrightarrow> \<not> supersedes op d
     \<Longrightarrow> d \<in> set (current_data (apply_cache_op s op))"
  by (cases op) (auto simp: clean_expired_data_def current_data_add_data same_key_def is_expired_def)

lemma foldl_cache_op_keeps:
  "d \<in> set (current_data s) \<Longrightarrow> expires_at d = None \<Longrightarrow> \<forall>op \<in> set ops. \<not> supersedes op d
     \<Longrightarrow> d \<in> set (current_data (foldl apply_cache_op s ops))"
  by (induction ops arbitrary: s) (simp_all add: apply_cache_op_keeps)

lemmas ex_defs = ex_input_def rec_a1_def rec_a2_def rec_b1_def rec_b2_def BaseInput_init_def

section \<open>Expiry and reads\<close>

text \<open>
  C1, as stated: a record whose \<open>expires_at\<close> lies in the past is never returned by
  \<open>get_current_data\<close> or \<open>get_latest_data\<close>. This fails: a fresh module receives
  \<open>rec_a1\<close>, which expires at 5; read at time 10, before any pruning pass, all three reads
  return it.
\<close>

theorem expired_record_returned:
  "is_expired rec_a1 10
   \<and> rec_a1 \<in> set (get_current_data (fst (add_data ex_input rec_a1)) None)
   \<and> rec_a1 \<in> set (get_current_data (fst (add_data ex_input rec_a1)) (Some ''time''))
   \<and> get_latest_data (fst (add_data ex_input rec_a1)) ''time'' = Some rec_a1"
  by (simp add: ex_defs current_data_add_data is_expired_def get_current_data_def
        get_latest_data_def)

text \<open>
  C1, amended: the reads apply no expiry check of their own; they return resident records
  only, so directly after a pruning pass made at time \<open>now\<close> neither \<open>get_current_data\<close>
  (with or without a filter) nor \<open>get_latest_data\<close> returns a record that is expired at
  \<open>now\<close>.
\<close>

theorem reads_after_pruning:
  "(\<forall>d \<in> set (get_current_data (clean_expired_data s now) dt). \<not> is_expired d now)
   \<and> (\<forall>r. get_latest_data (clean_expired_data s now) k = Some r \<longrightarrow> \<not> is_expired r now)"
proof -
  have a: "\<forall>d \<in> set (current_data (clean_expired_data s now)). \<not> is_expired d now"
    by (simp add: clean_expired_data_def)
  show ?thesis using a get_current_data_subset get_latest_data_mem by blast
qed

theorem reads_after_pruning_witness:
  "rec_b1 \<in> set (get_current_data
                  (clean_expired_data (add_all ex_input [rec_a1, rec_b1]) 10) None)
   \<and> get_latest_data (clean_expired_data (add_all ex_input [rec_a1, rec_b1]) 10) ''time''
       = Some rec_b1
   \<and> is_expired rec_a1 10 \<and> \<not> is_expired rec_b1 10"
proof -
  have cd: "current_data (clean_expired_data (add_all ex_input [rec_a1, rec_b1]) 10) = [rec_b1]"
    by (simp add: ex_defs add_all_def current_data_add_data clean_expired_data_def is_expired_def)
  have h1: "rec_b1 \<in> set (get_current_data
              (clean_expired_data (add_all ex_input [rec_a1, rec_b1]) 10) None)"
    by (simp add: get_current_data_def cd)
  have h2: "get_latest_data (clean_expired_data (add_all ex_input [rec_a1, rec_b1]) 10) ''time''
              = Some rec_b1"
    by (simp add: get_latest_data_def get_current_data_def cd) (simp add: rec_b1_def)
  have h3: "is_expired rec_a1 10" by (simp add: rec_a1_def is_expired_def)
  from reads_after_pruning [of "add_all ex_input [rec_a1, rec_b1]" 10 None "''time''"] h1 h2 h3
  show ?thesis by blast
qed

section \<open>Which record is the latest\<close>




section \<open>Records without an expiry time\<close>

text \<open>
  C10: a record whose \<open>expires_at\<close> is \<open>None\<close> is expired at no time; it stays resident
  through every sequence of pruning passes and \<open>add_data\<close> calls in which no added record
  has its source and type; and an \<open>add_data\<close> of another record with its source and type
  removes it.
\<close>

theorem unexpiring_record_stays:
  assumes "expires_at d = None"
  shows "(\<forall>now. \<not> is_expired d now)
    \<and> (d \<in> set (current_data s) \<longrightarrow> (\<forall>op \<in> set ops. \<not> supersedes op d)
          \<longrightarrow> d \<in> set (current_data (foldl apply_cache_op s ops)))
    \<and> (same_key d' d \<longrightarrow> d' \<noteq> d \<longrightarrow> d \<notin> set (current_data (fst (add_data s d'))))"
  using assms foldl_cache_op_keeps [of d s ops]
  by (auto simp: is_expired_def current_data_add_data same_key_def)

theorem unexpiring_record_stays_witness:
  "expires_at rec_b1 = None
   \<and> rec_b1 \<in> set (current_data (add_all ex_input [rec_b1]))
   \<and> \<not> supersedes (Clean 100) rec_b1 \<and> \<not> supersedes (Add rec_a1) rec_b1
   \<and> \<not> supersedes (Clean 1000) rec_b1
   \<and> rec_b1 \<in> set (current_data
        (foldl apply_cache_op (add_all ex_input [rec_b1]) [Clean 100, Add rec_a1, Clean 1000]))
   \<and> same_key rec_b2 rec_b1 \<and> rec_b2 \<noteq> rec_b1
   \<and> rec_b1 \<notin> set (current_data (fst (add_data (add_all ex_input [rec_b1]) rec_b2)))"
proof -
  have h0: "expires_at rec_b1 = None" by (simp add: rec_b1_def)
  have h1: "rec_b1 \<in> set (current_data (add_all ex_input [rec_b1]))"
    by (simp add: add_all_def current_data_add_data)
  have h2: "\<forall>op \<in> set [Clean 100, Add rec_a1, Clean 1000]. \<not> supersedes op rec_b1"
    by (simp add: same_key_def rec_a1_def rec_b1_def)
  have h3: "same_key rec_b2 rec_b1 \<and> rec_b2 \<noteq> rec_b1"
    by (simp add: same_key_def rec_b2_def rec_b1_def)
  from unexpiring_record_stays [OF h0, of "add_all ex_input [rec_b1]"
         "[Clean 100, Add rec_a1, Clean 1000]" rec_b2] h0 h1 h2 h3
  show ?thesis by simp
qed

section \<open>Supersession\<close>

lemma length_filter_conj_le: "length [x \<leftarrow> xs. P x \<and> Q x] \<le> length [x \<leftarrow> xs. Q x]"
  by (induction xs) auto

lemma resident_add_data:
  assumes "length (resident s src k) \<le> 1"
  shows "length (resident (fst (add_data s d)) src k) \<le> 1"
proof (cases "source d = src \<and> data_type d = k")
  case True
  then have "[x \<leftarrow> current_data s. \<not> (source x = source d \<and> data_type x = data_type d)
                \<and> (source x = src \<and> data_type x = k)] = []"
    by (auto simp: filter_empty_conv)
  with True show ?thesis by (simp add: resident_def current_data_add_data)
next
  case False
  have "length [x \<leftarrow> current_data s. \<not> (source x = source d \<and> data_type x = data_type d)
                  \<and> (source x = src \<and> data_type x = k)]
          \<le> length (resident s src k)"
    unfolding resident_def by (rule length_filter_conj_le)
  with False assms show ?thesis by (auto simp: resident_def current_data_add_data)
qed

lemma add_all_Nil: "add_all s [] = s"
  by (simp add: add_all_def)

lemma add_all_snoc: "add_all s (ds @ [d]) = fst (add_data (add_all s ds) d)"
  by (simp add: add_all_def)

lemma resident_add_all:
  assumes "length (resident s src k) \<le> 1"
  shows "length (resident (add_all s ds) src k) \<le> 1"
proof (induction ds rule: rev_induct)
  case Nil
  show ?case using assms by (simp only: add_all_Nil)
next
  case (snoc d ds)
  show ?case unfolding add_all_snoc by (rule resident_add_data) (rule snoc.IH)
qed

lemma source_add_data:
  "\<forall>x \<in> set (current_data s). source x = src \<Longrightarrow> source d = src
     \<Longrightarrow> \<forall>x \<in> set (current_data (fst (add_data s d))). source x = src"
  by (simp add: current_data_add_data)

lemma source_add_all:
  assumes "\<forall>x \<in> set (current_data s). source x = src" "\<forall>d \<in> set ds. source d = src"
  shows "\<forall>x \<in> set (current_data (add_all s ds)). source x = src"
  using assms(2)
proof (induction ds rule: rev_induct)
  case Nil
  show ?case using assms(1) by (simp only: add_all_Nil)
next
  case (snoc d ds)
  then have "\<forall>x \<in> set (current_data (add_all s ds)). source x = src" "source d = src"
    by simp_all
  then show ?case unfolding add_all_snoc by (rule source_add_data)
qed

lemma kind_add_data_same:
  assumes "\<forall>x \<in> set (current_data s). source x = source d"
  shows "[x \<leftarrow> current_data (fst (add_data s d)). data_type x = data_type d] = [d]"
proof -
  have "[x \<leftarrow> current_data s. \<not> (source x = source d \<and> data_type x = data_type d)
          \<and> data_type x = data_type d] = []"
    using assms by (auto simp: filter_empty_conv)
  then show ?thesis by (simp add: current_data_add_data)
qed

lemma kind_add_data_other:
  assumes "data_type d \<noteq> k"
  shows "[x \<leftarrow> current_data (fst (add_data s d)). data_type x = k]
           = [x \<leftarrow> current_data s. data_type x = k]"
proof -
  have "[x \<leftarrow> current_data s. \<not> (source x = source d \<and> data_type x = data_type d)
          \<and> data_type x = k] = [x \<leftarrow> current_data s. data_type x = k]"
    using assms by (intro filter_cong) auto
  with assms show ?thesis by (simp add: current_data_add_data)
qed

lemma kind_add_all:
  assumes "\<forall>x \<in> set (current_data s). source x = src" "\<forall>d \<in> set ds. source d = src"
    and "[d \<leftarrow> ds. data_type d = k] \<noteq> []"
  shows "[x \<leftarrow> current_data (add_all s ds). data_type x = k] = [last [d \<leftarrow> ds. data_type d = k]]"
  using assms(2,3)
proof (induction ds rule: rev_induct)
  case Nil
  then show ?case by simp
next
  case (snoc d ds)
  from snoc.prems have all: "\<forall>d \<in> set ds. source d = src" and sd: "source d = src"
    by simp_all
  have src: "\<forall>x \<in> set (current_data (add_all s ds)). source x = source d"
    using source_add_all [OF assms(1) all] sd by simp
  show ?case
  proof (cases "data_type d = k")
    case True
    have "[x \<leftarrow> current_data (add_all s (ds @ [d])). data_type x = data_type d] = [d]"
      unfolding add_all_snoc by (rule kind_add_data_same) (rule src)
    with True show ?thesis by simp
  next
    case False
    with snoc.prems have ne: "[d \<leftarrow> ds. data_type d = k] \<noteq> []" by simp
    have "[x \<leftarrow> current_data (add_all s (ds @ [d])). data_type x = k]
            = [x \<leftarrow> current_data (add_all s ds). data_type x = k]"
      unfolding add_all_snoc by (rule kind_add_data_other) (rule False)
    also have "\<dots> = [last [d \<leftarrow> ds. data_type d = k]]"
      by (rule snoc.IH) (rule all, rule ne)
    finally show ?thesis using False by simp
  qed
qed

text \<open>
  C2, as stated: after any sequence of \<open>add_data\<close> calls, \<open>get_latest_data(kind)\<close> is the
  most recently added non-expired record of that kind. This fails: \<open>rec_a1\<close> (source
  \<open>a\<close>, timestamp 10, expired at time 10) is added first and \<open>rec_b1\<close> (source \<open>b\<close>,
  timestamp 5, never expiring) last, both of type \<open>time\<close>; \<open>get_latest_data\<close> returns
  \<open>rec_a1\<close>.
\<close>

theorem latest_is_not_last_added:
  "get_latest_data (add_all ex_input [rec_a1, rec_b1]) ''time'' = Some rec_a1
   \<and> last [rec_a1, rec_b1] = rec_b1 \<and> rec_a1 \<noteq> rec_b1 \<and> \<not> is_expired rec_b1 10
   \<and> is_expired rec_a1 10"
  by (simp add: ex_defs add_all_def current_data_add_data get_current_data_def
        get_latest_data_def is_expired_def)


text \<open>
  C2, amended: after every sequence of \<open>add_data\<close> calls on a fresh module, at most one
  record of any source and type is resident; and when all the added records carry the same
  source, \<open>get_latest_data(kind)\<close> for a non-empty kind that occurs among them returns the
  record of that kind added last, whether or not it has expired.
\<close>

theorem supersession_same_source:
  "(\<forall>src k. length (resident (add_all (BaseInput_init nm cfg) ds) src k) \<le> 1)
   \<and> ((\<forall>d \<in> set ds. source d = src) \<and> k \<noteq> [] \<and> [d \<leftarrow> ds. data_type d = k] \<noteq> []
        \<longrightarrow> get_latest_data (add_all (BaseInput_init nm cfg) ds) k = Some (last [d \<leftarrow> ds. data_type d = k]))"
proof -
  have e: "current_data (BaseInput_init nm cfg) = []" by (simp add: BaseInput_init_def)
  have a: "length (resident (add_all (BaseInput_init nm cfg) ds) src' k') \<le> 1" for src' k'
    by (rule resident_add_all) (simp add: resident_def e)
  have b: "get_latest_data (add_all (BaseInput_init nm cfg) ds) k = Some (last [d \<leftarrow> ds. data_type d = k])"
    if h: "\<forall>d \<in> set ds. source d = src" "k \<noteq> []" "[d \<leftarrow> ds. data_type d = k] \<noteq> []"
  proof -
    have "[x \<leftarrow> current_data (add_all (BaseInput_init nm cfg) ds). data_type x = k]
            = [last [d \<leftarrow> ds. data_type d = k]]"
      by (rule kind_add_all [where src = src]) (simp_all add: e h)
    with h(2) show ?thesis by (simp add: get_latest_data_def get_current_data_def)
  qed
  from a b show ?thesis by blast
qed


theorem supersession_same_source_witness:
  "source rec_a2 = ''a'' \<and> source rec_a1 = ''a''
   \<and> data_type rec_a2 = ''time'' \<and> data_type rec_a1 = ''time''
   \<and> get_latest_data (add_all ex_input [rec_a2, rec_a1]) ''time'' = Some rec_a1
   \<and> length (resident (add_all ex_input [rec_a2, rec_a1]) ''a'' ''time'') \<le> 1"
proof -
  have s1: "source rec_a2 = ''a''" and s2: "source rec_a1 = ''a''"
    and k1: "data_type rec_a2 = ''time''" and k2: "data_type rec_a1 = ''time''"
    by (simp_all add: rec_a1_def rec_a2_def)
  have h1: "\<forall>d \<in> set [rec_a2, rec_a1]. source d = ''a''" using s1 s2 by simp
  have h2: "[d \<leftarrow> [rec_a2, rec_a1]. data_type d = ''time''] = [rec_a2, rec_a1]"
    using k1 k2 by simp
  have h3: "''time'' \<noteq> []" by simp
  have h4: "[d \<leftarrow> [rec_a2, rec_a1]. data_type d = ''time''] \<noteq> []" unfolding h2 by simp
  note t = supersession_same_source [of "''time_input''"
        "\<lparr>cfg_enabled = None, cfg_update_interval = None, cfg_max_errors = Some 2\<rparr>"
        "[rec_a2, rec_a1]" "''a''" "''time''", folded ex_input_def]
  from t h1 h3 h4 have "get_latest_data (add_all ex_input [rec_a2, rec_a1]) ''time''
      = Some (last [d \<leftarrow> [rec_a2, rec_a1]. data_type d = ''time''])" by blast
  then have g: "get_latest_data (add_all ex_input [rec_a2, rec_a1]) ''time'' = Some rec_a1"
    unfolding h2 by simp
  from t have l: "length (resident (add_all ex_input [rec_a2, rec_a1]) ''a'' ''time'') \<le> 1"
    by blast
  from s1 s2 k1 k2 g l show ?thesis by blast
qed

section \<open>Starting and stopping\<close>

text \<open>
  C5, as stated: a second \<open>start()\<close> on a running instance is a no-op and launches no second
  loop. This fails: after one \<open>start\<close> the module is running, and the second call creates
  another update-loop task.
\<close>

theorem second_start_launches_again:
  "running (fst (start ex_input))
   \<and> created_tasks (snd (start (fst (start ex_input)))) = [UpdateLoopTask]
   \<and> created_tasks (snd (start ex_input) @ snd (start (fst (start ex_input))))
        = [UpdateLoopTask, UpdateLoopTask]"
  by (simp add: start_def ex_input_def BaseInput_init_def)

text \<open>
  C5, amended: \<open>start()\<close> changes no attribute and launches no loop when \<open>enabled\<close> is
  false; otherwise each call sets \<open>running\<close> to true, leaves the other attributes as they
  are, and launches one update loop (whether or not the instance was running already).
\<close>

theorem start_behaviour:
  "(\<not> enabled s \<longrightarrow> fst (start s) = s \<and> created_tasks (snd (start s)) = [])
   \<and> (enabled s \<longrightarrow> fst (start s) = s\<lparr>running := True\<rparr>
                      \<and> created_tasks (snd (start s)) = [UpdateLoopTask])"
  by (simp add: start_def)

theorem start_behaviour_witness:
  "\<not> enabled (ex_input\<lparr>enabled := False\<rparr>)
   \<and> fst (start (ex_input\<lparr>enabled := False\<rparr>)) = ex_input\<lparr>enabled := False\<rparr>
   \<and> created_tasks (snd (start (ex_input\<lparr>enabled := False\<rparr>))) = []
   \<and> enabled ex_input
   \<and> fst (start ex_input) = ex_input\<lparr>running := True\<rparr>
   \<and> created_tasks (snd (start ex_input)) = [UpdateLoopTask]"
proof -
  have d: "\<not> enabled (ex_input\<lparr>enabled := False\<rparr>)" by simp
  have e: "enabled ex_input" by (simp add: ex_input_def BaseInput_init_def)
  from start_behaviour [of "ex_input\<lparr>enabled := False\<rparr>"] start_behaviour [of ex_input] d e
  show ?thesis by blast
qed

text \<open>
  C6, as stated: a second \<open>stop()\<close> does not run the cleanup hook again. This fails: the
  second of two \<open>stop\<close> calls runs the hook once more.
\<close>

theorem second_stop_cleans_up_again:
  "\<not> running (fst (stop ex_input))
   \<and> cleanup_runs (snd (stop (fst (stop ex_input)))) = 1"
  by (simp add: stop_def cleanup_runs_def)

text \<open>
  C6, amended: calling \<open>stop()\<close> twice leaves the attributes as one call does, with
  \<open>running\<close> false; every call runs the cleanup hook once, so two calls run it twice.
\<close>

theorem stop_twice:
  "fst (stop (fst (stop s))) = fst (stop s) \<and> \<not> running (fst (stop s))
   \<and> cleanup_runs (snd (stop s)) = 1
   \<and> cleanup_runs (snd (stop s) @ snd (stop (fst (stop s)))) = 2"
  by (simp add: stop_def cleanup_runs_def)

section \<open>Listener fan-out\<close>








section \<open>Layout\<close>

lemma split_lines_nonempty: "split_lines str \<noteq> []"
  by (induction str) (auto split: list.splits)

text \<open>
  C9: \<open>_draw_text\<close> draws one call per line. With centering requested and no position, line
  \<open>i\<close> is drawn at \<open>x = (width - measured width of that line) div 2\<close> and
  \<open>y = (height - line count * 15) div 2 + 15 * i\<close>, both quotients rounded down; with a
  position \<open>(x, y)\<close>, line \<open>i\<close> is drawn at \<open>(x, y + 15 * i)\<close>, whatever \<open>center\<close> is.
\<close>

theorem draw_text_layout:
  assumes "i < length (split_lines str)"
  shows "length (draw_text s textbbox str position center) = length (split_lines str)
    \<and> (center \<and> position = None \<longrightarrow>
         draw_text s textbbox str position center ! i
           = (((width s - measured_width textbbox (split_lines str ! i)) div 2,
               (height s - int (length (split_lines str)) * 15) div 2 + int i * 15),
              split_lines str ! i)
         \<and> 2 * ((width s - measured_width textbbox (split_lines str ! i)) div 2)
              \<le> width s - measured_width textbbox (split_lines str ! i)
         \<and> width s - measured_width textbbox (split_lines str ! i)
              \<le> 2 * ((width s - measured_width textbbox (split_lines str ! i)) div 2) + 1
         \<and> 2 * ((height s - int (length (split_lines str)) * 15) div 2)
              \<le> height s - int (length (split_lines str)) * 15
         \<and> height s - int (length (split_lines str)) * 15
              \<le> 2 * ((height s - int (length (split_lines str)) * 15) div 2) + 1)
    \<and> (\<forall>x y. position = Some (x, y) \<longrightarrow>
         draw_text s textbbox str position center ! i = ((x, y + int i * 15), split_lines str ! i))"
  using assms
  by (auto simp: draw_text_def Let_def measured_width_def nth_enumerate_eq split: prod.splits)

theorem draw_text_layout_witness:
  "split_lines ex_text = [''Hi'', ''there'']
   \<and> measured_width mock_bbox ''there'' = 30
   \<and> draw_text ex_display mock_bbox ex_text None True ! 1 = ((49, 32), ''there'')
   \<and> draw_text ex_display mock_bbox ex_text (Some (3, 4)) True ! 1 = ((3, 19), ''there'')"
proof -
  have l: "split_lines ex_text = [''Hi'', ''there'']" by (simp add: ex_text_def)
  have i: "1 < length (split_lines ex_text)" by (simp add: l)
  have m: "measured_width mock_bbox ''there'' = 30"
    by (simp add: measured_width_def mock_bbox_def)
  have w: "width ex_display = 128" "height ex_display = 64"
    by (simp_all add: ex_display_def DisplayController_init_def)
  from draw_text_layout [OF i, of ex_display mock_bbox None True]
  have a: "draw_text ex_display mock_bbox ex_text None True ! 1 = ((49, 32), ''there'')"
    by (simp add: l m w)
  from draw_text_layout [OF i, of ex_display mock_bbox "Some (3, 4)" True]
  have b: "draw_text ex_display mock_bbox ex_text (Some (3, 4)) True ! 1 = ((3, 19), ''there'')"
    by (simp add: l)
  from l m a b show ?thesis by blast
qed

section \<open>The update loop: fail-stop\<close>


















section \<open>Render preemption\<close>

lemmas display_defs = run_def ex_display_def DisplayController_init_def show_text_def
  cancel_current_def resume_def render_text_def clear_def show_progress_bar_def
  resume_caller_def task_done_def

text \<open>
  C3: once a show with a duration is followed by a show without one, the auto-clear armed
  for the first never clears the display while the second is the most recent content; a
  stale auto-clear never erases content newer than the content it was guarding.
  \<open>show_text\<close> keeps to this by cancelling \<open>current_task\<close>, as the last lemma of this
  section shows; \<open>show_progress_bar\<close> neither cancels that task nor has its own timed
  clear tracked, and the class breaks the claim in both ways. First: \<open>show_text\<close> shows
  \<open>A\<close> for 5000, after 1000 \<open>show_progress_bar\<close> paints a bar without a duration, and
  when the 5000 are over the task armed for \<open>A\<close> blanks the bar. Second: a caller sits in
  \<open>show_progress_bar\<close> with duration 5000, \<open>show_text\<close> shows \<open>A\<close> for 2000 and then
  \<open>B\<close> without a duration, and when the 5000 are over the bar's clear blanks \<open>B\<close>.
\<close>

theorem stale_clear_erases_newer_content:
  "panel (run ex_display [ShowText req_a (Some 5000), Resume 0, Advance 1000,
                          ShowProgressBar ex_bar None]) = Some (BarShown ex_bar)
   \<and> panel (run ex_display [ShowText req_a (Some 5000), Resume 0, Advance 1000,
                            ShowProgressBar ex_bar None, Advance 4000, Resume 0]) = None
   \<and> panel (run ex_display [ShowProgressBar ex_bar (Some 5000), ShowText req_a (Some 2000),
                            Resume 0, Advance 1000, ShowText req_b None])
        = Some (TextShown req_b)
   \<and> panel (run ex_display [ShowProgressBar ex_bar (Some 5000), ShowText req_a (Some 2000),
                            Resume 0, Advance 1000, ShowText req_b None,
                            Advance 4000, ResumeCaller 0]) = None"
  by (simp add: display_defs)

text \<open>
  The same first scenario with \<open>show_text\<close> in place of \<open>show_progress_bar\<close>: the task
  armed for \<open>A\<close> is cancelled and \<open>B\<close> stays.
\<close>

lemma show_text_cancels_pending_clear:
  "panel (run ex_display [ShowText req_a (Some 5000), Resume 0, Advance 1000,
                          ShowText req_b None, Advance 4000, Resume 0]) = Some (TextShown req_b)"
  by (simp add: display_defs)

lemma run_Nil: "run s [] = s"
  by (simp add: run_def)

lemma run_Cons: "run s (e # es) = run (step s e) es"
  by (simp add: run_def)

lemma run_append: "run s (es @ es') = run (run s es) es'"
  by (simp add: run_def)

lemma all_done_nth: "all_done s \<Longrightarrow> h < length (tasks s) \<Longrightarrow> task_done (tasks s ! h)"
  by (simp add: all_done_def list_all_length)

lemma all_done_live: "all_done s \<Longrightarrow> only_current_live s"
  by (simp add: only_current_live_def all_done_nth)

lemma init_live: "only_current_live (DisplayController_init b)"
  by (simp add: only_current_live_def DisplayController_init_def)

lemma cancel_current_done:
  assumes "only_current_live s"
  shows "all_done (cancel_current s)"
proof (cases "current_task s")
  case None
  with assms have "\<forall>h < length (tasks s). task_done (tasks s ! h)"
    by (auto simp: only_current_live_def)
  with None show ?thesis by (simp add: cancel_current_def all_done_def list_all_length)
next
  case (Some c)
  show ?thesis
  proof (cases "c < length (tasks s) \<and> \<not> task_done (tasks s ! c)")
    case True
    have "task_done ((tasks s)[c := (tasks s ! c)\<lparr>state := Cancelled\<rparr>] ! h)"
      if "h < length (tasks s)" for h
    proof (cases "h = c")
      case True
      with that show ?thesis by (simp add: task_done_def)
    next
      case False
      with assms Some that have "task_done (tasks s ! h)"
        by (auto simp: only_current_live_def)
      with False show ?thesis by simp
    qed
    with Some True show ?thesis
      by (simp add: cancel_current_def all_done_def list_all_length)
  next
    case False
    with assms Some have "\<forall>h < length (tasks s). task_done (tasks s ! h)"
      by (auto simp: only_current_live_def)
    with Some False show ?thesis
      by (auto simp: cancel_current_def all_done_def list_all_length)
  qed
qed

lemma cancel_current_callers: "callers (cancel_current s) = callers s"
  by (simp add: cancel_current_def split: option.splits)

lemma show_text_live:
  assumes "only_current_live s"
  shows "only_current_live (show_text s req dur)"
proof -
  let ?s1 = "cancel_current s"
  have d: "all_done ?s1" using assms by (rule cancel_current_done)
  have r: "only_current_live (render_text ?s1 req)"
    using all_done_live [OF d] by (simp add: render_text_def only_current_live_def)
  have n: "only_current_live
      (?s1\<lparr>tasks := tasks ?s1 @ [\<lparr>request = req, duration = x, state = Created\<rparr>],
            current_task := Some (length (tasks ?s1))\<rparr>)" for x
    using d by (auto simp: only_current_live_def nth_append all_done_nth)
  from r n show ?thesis
    by (simp add: show_text_def Let_def split: option.splits)
qed

lemma show_text_immediate:
  assumes "only_current_live s"
  shows "all_done (show_text s req None) \<and> panel (show_text s req None) = Some (TextShown req)
    \<and> callers (show_text s req None) = callers s"
  using cancel_current_done [OF assms] cancel_current_callers [of s]
  by (simp add: show_text_def render_text_def all_done_def)

lemma resume_live:
  assumes "only_current_live s"
  shows "only_current_live (resume s h)"
proof (cases "h < length (tasks s)")
  case False
  with assms show ?thesis by (simp add: resume_def)
next
  case True
  show ?thesis
  proof (cases "state (tasks s ! h)")
    case Created
    then have nd: "\<not> task_done (tasks s ! h)" by (simp add: task_done_def)
    with assms True have "current_task s = Some h" by (simp add: only_current_live_def)
    with assms True Created show ?thesis
      by (auto simp: resume_def render_text_def only_current_live_def nth_list_update)
  next
    case (Sleeping w)
    then have nd: "\<not> task_done (tasks s ! h)" by (simp add: task_done_def)
    with assms True have cur: "current_task s = Some h" by (simp add: only_current_live_def)
    have others: "task_done (tasks s ! k)" if "k < length (tasks s)" "k \<noteq> h" for k
      using assms cur that by (auto simp: only_current_live_def)
    show ?thesis
    proof (cases "clock s \<ge> w")
      case False
      with assms True Sleeping show ?thesis by (simp add: resume_def)
    next
      case ge: True
      with True Sleeping cur others show ?thesis
        by (auto simp: resume_def clear_def only_current_live_def nth_list_update)
    qed
  next
    case Finished
    with assms True show ?thesis by (simp add: resume_def)
  next
    case Cancelled
    with assms True show ?thesis by (simp add: resume_def)
  qed
qed

lemma show_progress_bar_live:
  "only_current_live s \<Longrightarrow> only_current_live (show_progress_bar s bar dur)"
  by (simp add: show_progress_bar_def only_current_live_def Let_def split: option.splits)

lemma resume_caller_live: "only_current_live s \<Longrightarrow> only_current_live (resume_caller s k)"
  by (simp add: resume_caller_def only_current_live_def clear_def split: caller_state.splits)

lemma shutdown_live:
  assumes "only_current_live s"
  shows "only_current_live (shutdown s)"
proof -
  have "all_done (clear (cancel_current s))"
    using cancel_current_done [OF assms] by (simp add: clear_def all_done_def)
  then show ?thesis unfolding shutdown_def by (rule all_done_live)
qed

lemma step_live: "only_current_live s \<Longrightarrow> only_current_live (step s ev)"
proof (cases ev)
  case (ShowText req dur)
  assume "only_current_live s"
  with ShowText show ?thesis by (simp add: show_text_live)
next
  case (ShowProgressBar bar dur)
  assume "only_current_live s"
  with ShowProgressBar show ?thesis by (simp add: show_progress_bar_live)
next
  case Clear
  assume "only_current_live s"
  with Clear show ?thesis by (simp add: only_current_live_def clear_def)
next
  case (SetBrightness b)
  assume "only_current_live s"
  with SetBrightness show ?thesis by (simp add: only_current_live_def set_brightness_def)
next
  case Shutdown
  assume "only_current_live s"
  with Shutdown show ?thesis by (simp add: shutdown_live)
next
  case (Resume h)
  assume "only_current_live s"
  with Resume show ?thesis by (simp add: resume_live)
next
  case (ResumeCaller k)
  assume "only_current_live s"
  with ResumeCaller show ?thesis by (simp add: resume_caller_live)
next
  case (Advance dt)
  assume "only_current_live s"
  with Advance show ?thesis by (simp add: only_current_live_def)
qed

lemma run_live: "only_current_live s \<Longrightarrow> only_current_live (run s evs)"
  by (induction evs arbitrary: s) (simp_all add: run_Nil run_Cons step_live)

lemma resume_done: "all_done s \<Longrightarrow> resume s h = s"
  using all_done_nth [of s h]
  by (auto simp: resume_def task_done_def split: task_state.splits)

lemma resume_caller_none: "no_suspended s \<Longrightarrow> resume_caller s k = s"
  by (auto simp: resume_caller_def no_suspended_def list_all_length split: caller_state.splits)

lemma step_scheduler_quiet:
  assumes "all_done s" "no_suspended s" "scheduler_event ev"
  shows "all_done (step s ev) \<and> no_suspended (step s ev) \<and> panel (step s ev) = panel s"
  using assms
  by (cases ev) (simp_all add: resume_done resume_caller_none, simp add: all_done_def no_suspended_def)

lemma run_scheduler_quiet:
  "all_done s \<Longrightarrow> no_suspended s \<Longrightarrow> \<forall>e \<in> set es. scheduler_event e
     \<Longrightarrow> panel (run s es) = panel s"
proof (induction es arbitrary: s)
  case Nil
  then show ?case by (simp add: run_Nil)
next
  case (Cons e es)
  then have "all_done (step s e)" "no_suspended (step s e)" "panel (step s e) = panel s"
    using step_scheduler_quiet [of s e] by simp_all
  with Cons show ?case by (simp add: run_Cons)
qed

text \<open>
  In general: whatever happened to a new controller before, if no caller is suspended inside
  \<open>show_progress_bar\<close> when \<open>show_text\<close> is called without a duration, the text stays on
  the panel for as long as only the event loop runs and time passes.
\<close>

lemma show_text_preempts:
  assumes "no_suspended (run (DisplayController_init b) evs)" "\<forall>e \<in> set es. scheduler_event e"
  shows "panel (run (DisplayController_init b) (evs @ [ShowText B None] @ es)) = Some (TextShown B)"
proof -
  let ?s = "run (DisplayController_init b) evs"
  have "only_current_live ?s" by (rule run_live) (rule init_live)
  then have "all_done (show_text ?s B None)" "panel (show_text ?s B None) = Some (TextShown B)"
    "no_suspended (show_text ?s B None)"
    using show_text_immediate [of ?s B] assms(1) by (simp_all add: no_suspended_def)
  with assms(2) have "panel (run (show_text ?s B None) es) = Some (TextShown B)"
    using run_scheduler_quiet by simp
  moreover have "run (DisplayController_init b) (evs @ [ShowText B None] @ es)
                 = run (show_text ?s B None) es"
    by (simp add: run_def)
  ultimately show ?thesis by simp
qed

end
